theory Spec2Isabelle
  imports Main "HOL-Library.Word"
begin

section \<open>Python strings\<close>

text \<open>
  A Python \<open>str\<close> is a sequence of Unicode code points. A code point is modelled as a
  natural number and a string as a list of them, so that the line boundaries and the white
  space beyond Latin-1 that \<open>str.splitlines\<close> and \<open>str.split\<close> recognise are in the
  model. \<open>ustr\<close> turns an ASCII literal into such a string.
\<close>

type_synonym pychar = nat
type_synonym pystr = "pychar list"

definition ustr :: "string \<Rightarrow> pystr" where
  "ustr s = map of_char s"

text \<open>
  The line boundaries of \<open>str.splitlines\<close>: LF, VT, FF, CR, FS, GS, RS, NEL, LS and PS
  (CR LF counts as one boundary).
\<close>

definition is_linebreak :: "pychar \<Rightarrow> bool" where
  "is_linebreak c = (c \<in> {10, 11, 12, 13, 28, 29, 30, 133, 8232, 8233})"

text \<open>The white space of \<open>str.split()\<close> without arguments (\<open>str.isspace\<close>).\<close>

definition is_space :: "pychar \<Rightarrow> bool" where
  "is_space c = ((9 \<le> c \<and> c \<le> 13) \<or> (28 \<le> c \<and> c \<le> 32) \<or> c = 133 \<or> c = 160 \<or>
     c = 5760 \<or> (8192 \<le> c \<and> c \<le> 8202) \<or> c = 8232 \<or> c = 8233 \<or> c = 8239 \<or>
     c = 8287 \<or> c = 12288)"

text \<open>
  \<open>s.splitlines()\<close>: the text is cut at every line boundary, the boundaries are dropped,
  and no empty last line is produced when the text ends with a boundary. \<open>cur\<close> holds the
  characters of the line being read.
\<close>

fun skip_lf :: "pychar \<Rightarrow> pystr \<Rightarrow> pystr" where
  "skip_lf c [] = []"
| "skip_lf c (d # ds) = (if c = 13 \<and> d = 10 then ds else d # ds)"

function splitlines_from :: "pystr \<Rightarrow> pystr \<Rightarrow> pystr list" where
  "splitlines_from cur [] = (if cur = [] then [] else [cur])"
| "splitlines_from cur (c # cs) =
     (if is_linebreak c then cur # splitlines_from [] (skip_lf c cs)
      else splitlines_from (cur @ [c]) cs)"
  by pat_completeness auto

termination
proof (relation "measure (\<lambda>(cur, s). length s)")
  show "wf (measure (\<lambda>(cur, s). length s))" by simp
next
  fix cur :: pystr and c :: pychar and cs :: pystr
  have "length (skip_lf c cs) < Suc (length cs)"
    by (cases cs) simp_all
  then show "(([], skip_lf c cs), cur, c # cs) \<in> measure (\<lambda>(cur, s). length s)"
    by simp
next
  fix cur :: pystr and c :: pychar and cs :: pystr
  show "((cur @ [c], cs), cur, c # cs) \<in> measure (\<lambda>(cur, s). length s)"
    by simp
qed

definition splitlines :: "pystr \<Rightarrow> pystr list" where
  "splitlines s = splitlines_from [] s"

text \<open>
  \<open>s.split()\<close>: the maximal runs of characters that are not white space, in order; white
  space at either end gives no empty token.
\<close>

fun split_from :: "pystr \<Rightarrow> pystr \<Rightarrow> pystr list" where
  "split_from cur [] = (if cur = [] then [] else [cur])"
| "split_from cur (c # cs) =
     (if is_space c then (if cur = [] then split_from [] cs else cur # split_from [] cs)
      else split_from (cur @ [c]) cs)"

definition split :: "pystr \<Rightarrow> pystr list" where
  "split s = split_from [] s"

definition startswith :: "pystr \<Rightarrow> pystr \<Rightarrow> bool" where
  "startswith s p = (take (length p) s = p)"

section \<open>Exceptions\<close>

text \<open>
  The exception classes that the handlers of the program tell apart. \<open>BadGzipFile\<close> is a
  subclass of \<open>OSError\<close>; \<open>EOFError\<close>, \<open>zlib_error\<close> and \<open>UnicodeDecodeError\<close> are not.
  All of them derive from \<open>Exception\<close>.
\<close>

datatype exn =
    ClientError | OSError | BadGzipFile | EOFError | zlib_error | UnicodeDecodeError
  | IndexError | OtherException

section \<open>Extraction of the ACCESSION numbers\<close>

definition ACCESSION :: pystr where
  "ACCESSION = ustr ''ACCESSION''"

text \<open>\<open>xs[1]\<close> on a Python list: the second element, or \<open>IndexError\<close>.\<close>

fun index1 :: "'a list \<Rightarrow> exn + 'a" where
  "index1 (x # y # ys) = Inr y"
| "index1 xs = Inl IndexError"

text \<open>
  The loop of \<open>extract_accession_numbers\<close> over the lines, with the list built so far.
  The exception of \<open>line.split()[1]\<close> leaves the loop and the function.
\<close>

fun extract_loop :: "pystr list \<Rightarrow> pystr list \<Rightarrow> exn + pystr list" where
  "extract_loop [] accession_list = Inr accession_list"
| "extract_loop (line # lines) accession_list =
     (if startswith line ACCESSION then
        (case index1 (split line) of
           Inl e \<Rightarrow> Inl e
         | Inr tok \<Rightarrow> extract_loop lines (accession_list @ [tok]))
      else extract_loop lines accession_list)"

definition extract_accession_numbers :: "pystr \<Rightarrow> exn + pystr list" where
  "extract_accession_numbers file_data = extract_loop (splitlines file_data) []"

text \<open>The lines that the loop keeps: those with the prefix \<open>ACCESSION\<close>.\<close>

definition accession_lines :: "pystr \<Rightarrow> pystr list" where
  "accession_lines file_data =
     filter (\<lambda>line. startswith line ACCESSION) (splitlines file_data)"

section \<open>The table of download tasks\<close>

text \<open>
  A row of the table \<open>files\<close> (class \<open>File\<close>). The columns \<open>size\<close> and \<open>created_at\<close>
  are left out: the program never reads or writes them. \<open>uuid\<close> is the primary key;
  \<open>download_task_id\<close> carries no uniqueness constraint. \<open>result_count\<close> and
  \<open>accession_list\<close> are nullable, with the defaults \<open>0\<close> and \<open>[]\<close>. The table is the list
  of its rows, in the order in which a query returns them.
\<close>

record File =
  uuid :: nat
  download_task_id :: int
  url :: pystr
  status :: pystr
  result_count :: "int option"
  accession_list :: "pystr list option"

text \<open>The status strings that the program writes.\<close>

definition Downloading :: pystr where
  "Downloading = ustr ''Downloading''"

definition Completed :: pystr where
  "Completed = ustr ''Completed''"

definition Failed_to_download :: pystr where
  "Failed_to_download = ustr ''Failed to download''"

definition Failed_to_decompress :: pystr where
  "Failed_to_decompress = ustr ''Failed to decompress''"

definition Failed_unexpected :: pystr where
  "Failed_unexpected = ustr ''Failed due to an unexpected error''"

text \<open>
  \<open>select(File).filter_by(download_task_id=task_id)\<close> followed by \<open>.first()\<close> is
  \<open>find (has_task_id task_id)\<close>; committing the changed object replaces that row.
\<close>

definition has_task_id :: "int \<Rightarrow> File \<Rightarrow> bool" where
  "has_task_id task_id r = (download_task_id r = task_id)"

fun replace_first :: "('a \<Rightarrow> bool) \<Rightarrow> 'a \<Rightarrow> 'a list \<Rightarrow> 'a list" where
  "replace_first P y [] = []"
| "replace_first P y (x # xs) = (if P x then y # xs else x # replace_first P y xs)"

definition task_status :: "File list \<Rightarrow> int \<Rightarrow> pystr option" where
  "task_status files task_id = map_option status (find (has_task_id task_id) files)"

text \<open>
  \<open>update_file_status\<close> (the same in both modules). \<open>sql_error\<close> says whether the
  transaction raises \<open>SQLAlchemyError\<close>: it is then rolled back and the table is as
  before. The function returns nothing; its effect is the new table.
\<close>

definition update_file_status ::
  "bool \<Rightarrow> File list \<Rightarrow> int \<Rightarrow> pystr \<Rightarrow> pystr list option \<Rightarrow> File list" where
  "update_file_status sql_error files task_id new_status new_list =
     (if sql_error then files
      else case find (has_task_id task_id) files of
        None \<Rightarrow> files
      | Some file_record \<Rightarrow>
          let r1 = file_record\<lparr>status := new_status\<rparr>;
              r2 = (case new_list of
                      None \<Rightarrow> r1
                    | Some xs \<Rightarrow>
                        r1\<lparr>accession_list := Some xs, result_count := Some (int (length xs))\<rparr>)
          in replace_first (has_task_id task_id) r2 files)"

section \<open>The download pipeline\<close>

text \<open>
  What one run of the pipeline meets outside the program: the outcome of the GET request
  (an exception, or a response with its status code and the outcome of reading its body),
  the outcome of reading the body through \<open>gzip.open(..., 'rt')\<close> (an exception, or the
  decoded text), and whether the status update hits a database error.
\<close>

type_synonym byte = "8 word"

record env =
  http_get :: "pystr \<Rightarrow> exn + (int \<times> (exn + byte list))"
  gzip_read :: "byte list \<Rightarrow> exn + pystr"
  sql_fails :: bool

text \<open>The two outer handlers: \<open>except aiohttp.ClientError\<close>, then \<open>except Exception\<close>.\<close>

definition on_exception :: "env \<Rightarrow> int \<Rightarrow> File list \<Rightarrow> exn \<Rightarrow> File list" where
  "on_exception e task_id files ex =
     (if ex = ClientError
      then update_file_status (sql_fails e) files task_id Failed_to_download None
      else update_file_status (sql_fails e) files task_id Failed_unexpected None)"

text \<open>
  The part of the pipeline after the body has been read: decompression, extraction and
  the final update. \<open>caught\<close> is the inner \<open>except\<close> clause around the decompression.
\<close>

definition process_body ::
  "(exn \<Rightarrow> bool) \<Rightarrow> env \<Rightarrow> int \<Rightarrow> File list \<Rightarrow> byte list \<Rightarrow> File list" where
  "process_body caught e task_id files file_content =
     (case gzip_read e file_content of
        Inl ex \<Rightarrow>
          if caught ex
          then update_file_status (sql_fails e) files task_id Failed_to_decompress None
          else on_exception e task_id files ex
      | Inr file_data \<Rightarrow>
          (case extract_accession_numbers file_data of
             Inl ex \<Rightarrow> on_exception e task_id files ex
           | Inr ids \<Rightarrow>
               update_file_status (sql_fails e) files task_id Completed (Some ids)))"

definition download_and_process_file_with ::
  "(exn \<Rightarrow> bool) \<Rightarrow> env \<Rightarrow> pystr \<Rightarrow> int \<Rightarrow> File list \<Rightarrow> File list" where
  "download_and_process_file_with caught e the_url task_id files =
     (case http_get e the_url of
        Inl ex \<Rightarrow> on_exception e task_id files ex
      | Inr (code, body) \<Rightarrow>
          if code \<noteq> 200
          then update_file_status (sql_fails e) files task_id Failed_to_download None
          else (case body of
                  Inl ex \<Rightarrow> on_exception e task_id files ex
                | Inr file_content \<Rightarrow> process_body caught e task_id files file_content))"

text \<open>
  \<open>file_processing.py\<close> catches \<open>(OSError, gzip.BadGzipFile)\<close> around the decompression,
  \<open>routers/file.py\<close> catches \<open>gzip.BadGzipFile\<close> only.
\<close>

definition caught_file_processing :: "exn \<Rightarrow> bool" where
  "caught_file_processing ex = (ex = OSError \<or> ex = BadGzipFile)"

definition caught_routers :: "exn \<Rightarrow> bool" where
  "caught_routers ex = (ex = BadGzipFile)"

definition download_and_process_file :: "env \<Rightarrow> pystr \<Rightarrow> int \<Rightarrow> File list \<Rightarrow> File list" where
  "download_and_process_file = download_and_process_file_with caught_file_processing"

definition routers_download_and_process_file ::
  "env \<Rightarrow> pystr \<Rightarrow> int \<Rightarrow> File list \<Rightarrow> File list" where
  "routers_download_and_process_file = download_and_process_file_with caught_routers"

section \<open>The two endpoints\<close>

datatype failure = HTTPException int string | Unhandled exn

datatype response =
    FileDownloadResponse int pystr
  | FileStatusResponse pystr "int option" "pystr list"

text \<open>
  \<open>random.randint(a, b)\<close>, from a source of randomness \<open>r\<close>: some integer from \<open>a\<close> to \<open>b\<close>.
\<close>

definition randint :: "int \<Rightarrow> int \<Rightarrow> nat \<Rightarrow> int" where
  "randint a b r = a + int r mod (b - a + 1)"

text \<open>
  What \<open>start_download\<close> meets outside the program: the outcome of the HEAD request, the
  random source, the fresh \<open>uuid4\<close> and whether the commit raises \<open>SQLAlchemyError\<close>.
\<close>

record start_env =
  http_head :: "pystr \<Rightarrow> exn + int"
  rnd :: nat
  new_uuid :: nat
  commit_fails :: bool

text \<open>
  \<open>start_download\<close> gives the new table, the answer to the client, and the pipeline runs
  handed to the background tasks (URL and task identifier). A clash of the primary key
  makes the commit fail as a database error does.
\<close>

definition start_download ::
  "start_env \<Rightarrow> pystr \<Rightarrow> File list \<Rightarrow> File list \<times> (failure + response) \<times> (pystr \<times> int) list" where
  "start_download e request_url files =
     (case http_head e request_url of
        Inl ex \<Rightarrow>
          (files,
           if ex = ClientError then Inl (HTTPException 400 ''Invalid URL'') else Inl (Unhandled ex),
           [])
      | Inr code \<Rightarrow>
          if code \<noteq> 200 then (files, Inl (HTTPException 400 ''Invalid URL''), [])
          else
            let task_id = randint 1 (10 ^ 6) (rnd e);
                download_task = \<lparr>uuid = new_uuid e, download_task_id = task_id,
                  url = request_url, status = Downloading, result_count = Some 0,
                  accession_list = Some []\<rparr>
            in if commit_fails e \<or> new_uuid e \<in> set (map uuid files)
               then (files, Inl (HTTPException 500 ''Failed to start download''), [])
               else (files @ [download_task],
                     Inr (FileDownloadResponse task_id Downloading),
                     [(request_url, task_id)]))"

text \<open>
  \<open>check_status\<close> works on the loaded object, whose \<open>accession_list\<close> is a mutable list
  that records its changes, and the transaction is committed when the block is left: a
  change of that list would reach the table. So the lists are kept in a small heap of list
  objects, addressed by position: the loaded list (if the column is not null) is object
  \<open>0\<close>, a slice and the literal \<open>[]\<close> are new objects, \<open>append\<close> changes an object in
  place, and the commit writes the loaded list back to the row.
\<close>

type_synonym addr = nat
type_synonym heap = "pystr list list"

definition alloc :: "heap \<Rightarrow> pystr list \<Rightarrow> heap \<times> addr" where
  "alloc h v = (h @ [v], length h)"

definition append_obj :: "heap \<Rightarrow> addr \<Rightarrow> pystr \<Rightarrow> heap" where
  "append_obj h a x = h[a := h ! a @ [x]]"

definition load_list :: "File \<Rightarrow> heap \<times> addr option" where
  "load_list r = (case accession_list r of None \<Rightarrow> ([], None) | Some xs \<Rightarrow> ([xs], Some 0))"

definition flush_list :: "heap \<Rightarrow> addr option \<Rightarrow> File \<Rightarrow> File" where
  "flush_list h ref r = r\<lparr>accession_list := map_option (\<lambda>a. h ! a) ref\<rparr>"

definition check_status :: "bool \<Rightarrow> File list \<Rightarrow> int \<Rightarrow> File list \<times> (failure + response)" where
  "check_status sql_error files task_id =
     (if sql_error then (files, Inl (HTTPException 500 ''Failed to retrieve status''))
      else case find (has_task_id task_id) files of
        None \<Rightarrow> (files, Inl (HTTPException 404 ''Task not found''))
      | Some file_record \<Rightarrow>
          let (h0, ref) = load_list file_record;
              (h1, display_accessions) =
                (case ref of
                   None \<Rightarrow> alloc h0 []
                 | Some a \<Rightarrow> if h0 ! a \<noteq> [] then alloc h0 (take 20 (h0 ! a)) else alloc h0 []);
              h2 = append_obj h1 display_accessions (ustr ''...'')
          in (replace_first (has_task_id task_id) (flush_list h2 ref file_record) files,
              Inr (FileStatusResponse (status file_record) (result_count file_record)
                     (h2 ! display_accessions))))"

text \<open>A row whose \<open>result_count\<close> is the length of its \<open>accession_list\<close>.\<close>

definition consistent :: "File \<Rightarrow> bool" where
  "consistent r =
     (case accession_list r of
        None \<Rightarrow> False
      | Some xs \<Rightarrow> result_count r = Some (int (length xs)))"

text \<open>
  What a write may do to the two columns of a row: leave both as they are, or set both,
  the count to the length of the list.
\<close>

definition set_together :: "pystr list option \<Rightarrow> File \<Rightarrow> File \<Rightarrow> bool" where
  "set_together new_list r r' =
     ((accession_list r' = accession_list r \<and> result_count r' = result_count r) \<or>
      (case new_list of
         None \<Rightarrow> False
       | Some xs \<Rightarrow> accession_list r' = Some xs \<and> result_count r' = Some (int (length xs))))"

section \<open>Reachable tables\<close>

text \<open>
  The tables that the program can produce from the empty table: by accepting a download,
  by a run of the pipeline (either module, any outcome of the environment) and by a status
  query.
\<close>

inductive reachable :: "File list \<Rightarrow> bool" where
  reachable_empty: "reachable []"
| reachable_start: "reachable files \<Longrightarrow> reachable (fst (start_download se request_url files))"
| reachable_pipeline:
    "reachable files \<Longrightarrow> caught = caught_file_processing \<or> caught = caught_routers \<Longrightarrow>
     reachable (download_and_process_file_with caught e the_url task_id files)"
| reachable_check: "reachable files \<Longrightarrow> reachable (fst (check_status sql_error files task_id))"

section \<open>Concrete scenarios\<close>

text \<open>The text \<open>"ACCESSION A1\nIGNORE\nACCESSION A2\n"\<close>.\<close>

definition scenario_text :: pystr where
  "scenario_text = ustr ''ACCESSION A1'' @ [10] @ ustr ''IGNORE'' @ [10] @ ustr ''ACCESSION A2'' @ [10]"

text \<open>A text whose first line is \<open>ACCESSION\<close> alone: \<open>"ACCESSION\nACCESSION A1\n"\<close>.\<close>

definition malformed_text :: pystr where
  "malformed_text = ustr ''ACCESSION'' @ [10] @ ustr ''ACCESSION A1'' @ [10]"

definition scenario_url :: pystr where
  "scenario_url = ustr ''http://host/seq.gz''"

text \<open>A task as \<open>start_download\<close> creates it, with identifier 7.\<close>

definition task7 :: File where
  "task7 = \<lparr>uuid = 1, download_task_id = 7, url = scenario_url, status = Downloading,
     result_count = Some 0, accession_list = Some []\<rparr>"

text \<open>The same task after a run of the pipeline that found \<open>A1\<close> and \<open>A2\<close>.\<close>

definition task7_done :: File where
  "task7_done = \<lparr>uuid = 1, download_task_id = 7, url = scenario_url, status = Completed,
     result_count = Some 2, accession_list = Some [ustr ''A1'', ustr ''A2'']\<rparr>"

text \<open>
  An environment whose server answers with the status code \<open>code\<close> and a body (its bytes
  stand for a gzip file) that decompresses to \<open>scenario_text\<close>.
\<close>

definition scenario_body :: "byte list" where
  "scenario_body = [0x1f, 0x8b, 0x08, 0x00]"

definition scenario_gzip :: "byte list \<Rightarrow> exn + pystr" where
  "scenario_gzip b = (if b = scenario_body then Inr scenario_text else Inl BadGzipFile)"

definition scenario_get :: "int \<Rightarrow> pystr \<Rightarrow> exn + (int \<times> (exn + byte list))" where
  "scenario_get code u = Inr (code, Inr scenario_body)"

definition scenario_env :: "int \<Rightarrow> env" where
  "scenario_env code = \<lparr>http_get = scenario_get code, gzip_read = scenario_gzip, sql_fails = False\<rparr>"

text \<open>
  An environment whose server answers 200 with a gzip stream that ends early: CPython's
  \<open>gzip\<close> raises \<open>EOFError\<close> (``Compressed file ended before the end-of-stream marker was
  reached'') when it reads such a stream.
\<close>

definition truncated_body :: "byte list" where
  "truncated_body = [0x1f, 0x8b, 0x08, 0x00, 0x00, 0x00, 0x00, 0x00, 0x00, 0x03]"

definition truncated_gzip :: "byte list \<Rightarrow> exn + pystr" where
  "truncated_gzip b = (if b = truncated_body then Inl EOFError else Inl BadGzipFile)"

definition truncated_get :: "pystr \<Rightarrow> exn + (int \<times> (exn + byte list))" where
  "truncated_get u = Inr (200, Inr truncated_body)"

definition truncated_env :: env where
  "truncated_env = \<lparr>http_get = truncated_get, gzip_read = truncated_gzip, sql_fails = False\<rparr>"

text \<open>An accepted request whose random draw gives the identifier 7 again.\<close>

definition head_ok :: "pystr \<Rightarrow> exn + int" where
  "head_ok u = Inr 200"

definition start7 :: start_env where
  "start7 = \<lparr>http_head = head_ok, rnd = 6, new_uuid = 2, commit_fails = False\<rparr>"

text \<open>The accepted request that creates \<open>task7\<close> in the empty table.\<close>

definition start1 :: start_env where
  "start1 = \<lparr>http_head = head_ok, rnd = 6, new_uuid = 1, commit_fails = False\<rparr>"

definition task7_again :: File where
  "task7_again = \<lparr>uuid = 2, download_task_id = 7, url = scenario_url, status = Downloading,
     result_count = Some 0, accession_list = Some []\<rparr>"

section \<open>Extraction: properties\<close>

lemmas str_defs = ustr_def is_linebreak_def is_space_def startswith_def ACCESSION_def
  split_def splitlines_def

lemma index1_nth: "2 \<le> length xs \<Longrightarrow> index1 xs = Inr (xs ! 1)"
  by (cases xs rule: index1.cases) simp_all

lemma extract_loop_wellformed:
  "\<forall>line \<in> set lines. startswith line ACCESSION \<longrightarrow> 2 \<le> length (split line) \<Longrightarrow>
   extract_loop lines acc =
     Inr (acc @ map (\<lambda>line. split line ! 1) (filter (\<lambda>line. startswith line ACCESSION) lines))"
proof (induction lines arbitrary: acc)
  case Nil
  show ?case by simp
next
  case (Cons line lines)
  show ?case
  proof (cases "startswith line ACCESSION")
    case True
    with Cons.prems have "index1 (split line) = Inr (split line ! 1)"
      by (simp add: index1_nth)
    with True Cons show ?thesis by simp
  next
    case False
    with Cons show ?thesis by simp
  qed
qed

lemma scenario_lines:
  "splitlines scenario_text = [ustr ''ACCESSION A1'', ustr ''IGNORE'', ustr ''ACCESSION A2'']"
  by (simp add: scenario_text_def splitlines_def ustr_def is_linebreak_def)

lemma scenario_extract: "extract_accession_numbers scenario_text = Inr [ustr ''A1'', ustr ''A2'']"
  by (simp add: extract_accession_numbers_def scenario_lines)
     (simp add: ustr_def is_space_def startswith_def ACCESSION_def split_def)

text \<open>
  Claim C1. Let a text be such that each of its lines with the prefix \<open>ACCESSION\<close> has an
  identifier after it, that is, at least two tokens separated by white space. If \<open>k\<close> is
  the number of these lines, \<open>extract_accession_numbers\<close> returns a list of exactly \<open>k\<close>
  identifiers, in the order of the lines, each the second token of its line.
\<close>

theorem extract_accession_numbers_wellformed:
  assumes "\<forall>line \<in> set (splitlines file_data).
             startswith line ACCESSION \<longrightarrow> 2 \<le> length (split line)"
  shows "\<exists>ids. extract_accession_numbers file_data = Inr ids
           \<and> length ids = length (accession_lines file_data)
           \<and> ids = map (\<lambda>line. split line ! 1) (accession_lines file_data)"
  using extract_loop_wellformed [OF assms, of "[]"]
  by (simp add: extract_accession_numbers_def accession_lines_def)

theorem extract_accession_numbers_wellformed_witness:
  "accession_lines scenario_text = [ustr ''ACCESSION A1'', ustr ''ACCESSION A2'']
   \<and> length (accession_lines scenario_text) = 2
   \<and> extract_accession_numbers scenario_text = Inr [ustr ''A1'', ustr ''A2'']"
proof -
  have h: "\<forall>line \<in> set (splitlines scenario_text).
      startswith line ACCESSION \<longrightarrow> 2 \<le> length (split line)"
    by (simp add: scenario_lines)
       (simp add: ustr_def is_space_def split_def startswith_def ACCESSION_def)
  have l: "accession_lines scenario_text = [ustr ''ACCESSION A1'', ustr ''ACCESSION A2'']"
    by (simp add: accession_lines_def scenario_lines)
       (simp add: ustr_def startswith_def ACCESSION_def)
  have s: "map (\<lambda>line. split line ! 1) [ustr ''ACCESSION A1'', ustr ''ACCESSION A2'']
             = [ustr ''A1'', ustr ''A2'']"
    by (simp add: ustr_def is_space_def split_def)
  from extract_accession_numbers_wellformed [OF h] l s show ?thesis by auto
qed

text \<open>
  Claim C3. The claim is that extraction never raises and that a line \<open>ACCESSION\<close> with
  no second token does not stop the extraction of the later lines. On the text
  \<open>"ACCESSION\nACCESSION A1\n"\<close> the function raises \<open>IndexError\<close> at the first line and
  returns no list: the identifier \<open>A1\<close> of the second line is lost.
\<close>

theorem extract_accession_numbers_malformed:
  "extract_accession_numbers malformed_text = Inl IndexError"
  by (simp add: extract_accession_numbers_def malformed_text_def str_defs)

lemma index1_raises: "index1 xs = Inl ex \<Longrightarrow> ex = IndexError"
  by (cases xs rule: index1.cases) simp_all

lemma extract_loop_raises: "extract_loop lines acc = Inl ex \<Longrightarrow> ex = IndexError"
proof (induction lines arbitrary: acc)
  case Nil
  then show ?case by simp
next
  case (Cons line lines)
  show ?case
  proof (cases "startswith line ACCESSION")
    case False
    with Cons show ?thesis by simp
  next
    case True
    show ?thesis
    proof (cases "index1 (split line)")
      case (Inl e)
      with True Cons.prems have "e = ex" by simp
      with Inl show ?thesis by (simp add: index1_raises)
    next
      case (Inr tok)
      with True Cons show ?thesis by simp
    qed
  qed
qed

lemma extract_raises: "extract_accession_numbers file_data = Inl ex \<Longrightarrow> ex = IndexError"
  unfolding extract_accession_numbers_def by (rule extract_loop_raises)

section \<open>The table: properties\<close>

lemmas status_defs = Downloading_def Completed_def Failed_to_download_def
  Failed_to_decompress_def Failed_unexpected_def

lemma status_distinct:
  "Failed_to_download \<noteq> Completed" "Failed_to_download \<noteq> Failed_to_decompress"
  "Failed_to_download \<noteq> Failed_unexpected" "Failed_to_download \<noteq> Downloading"
  "Completed \<noteq> Failed_to_decompress" "Completed \<noteq> Failed_unexpected"
  "Completed \<noteq> Downloading" "Failed_to_decompress \<noteq> Failed_unexpected"
  by (simp_all add: status_defs ustr_def)

lemma find_replace_first:
  "P y \<Longrightarrow> find P xs = Some x \<Longrightarrow> find P (replace_first P y xs) = Some y"
  by (induction xs) (auto split: if_splits)

lemma replace_first_same: "find P xs = Some x \<Longrightarrow> replace_first P x xs = xs"
  by (induction xs) (auto split: if_splits)

lemma find_has_task_id: "find (has_task_id t) files = Some r \<Longrightarrow> download_task_id r = t"
  by (induction files) (auto simp: has_task_id_def split: if_splits)

lemma replace_first_rel:
  assumes "\<And>x. R x x" and "\<And>x. find P xs = Some x \<Longrightarrow> R x y"
  shows "list_all2 R xs (replace_first P y xs)"
  using assms(2)
proof (induction xs)
  case Nil
  show ?case by simp
next
  case (Cons a xs)
  have refl: "list_all2 R xs xs" using assms(1) by (simp add: list_all2_same)
  show ?case
  proof (cases "P a")
    case True
    with Cons.prems refl show ?thesis by simp
  next
    case False
    with Cons assms(1) show ?thesis by simp
  qed
qed

lemma update_file_status_found:
  assumes "find (has_task_id t) files = Some r"
  shows "update_file_status False files t st None
           = replace_first (has_task_id t) (r\<lparr>status := st\<rparr>) files"
    and "update_file_status False files t st (Some xs)
           = replace_first (has_task_id t)
               (r\<lparr>status := st, accession_list := Some xs, result_count := Some (int (length xs))\<rparr>) files"
  using assms by (simp_all add: update_file_status_def)

lemma update_file_status_status:
  assumes "find (has_task_id t) files = Some r"
  shows "task_status (update_file_status False files t st new_list) t = Some st"
proof -
  have t: "download_task_id r = t" using assms by (rule find_has_task_id)
  show ?thesis
  proof (cases new_list)
    case None
    have "has_task_id t (r\<lparr>status := st\<rparr>)" using t by (simp add: has_task_id_def)
    from find_replace_first [OF this assms] None assms show ?thesis
      by (simp add: task_status_def update_file_status_def)
  next
    case (Some xs)
    have "has_task_id t (r\<lparr>status := st, accession_list := Some xs, result_count := Some (int (length xs))\<rparr>)"
      using t by (simp add: has_task_id_def)
    from find_replace_first [OF this assms] Some assms show ?thesis
      by (simp add: task_status_def update_file_status_def)
  qed
qed

section \<open>The pipeline: properties\<close>

lemma scenario_A_run:
  assumes "http_get e u = Inr (200, Inr body)"
      and "gzip_read e body = Inr scenario_text"
  shows "download_and_process_file_with caught e u t files
           = update_file_status (sql_fails e) files t Completed (Some [ustr ''A1'', ustr ''A2''])"
  using assms
  by (simp add: download_and_process_file_with_def process_body_def scenario_extract)

lemma scenario_env_simps:
  "http_get (scenario_env code) u = Inr (code, Inr scenario_body)"
  "gzip_read (scenario_env code) scenario_body = Inr scenario_text"
  "sql_fails (scenario_env code) = False"
  by (simp_all add: scenario_env_def scenario_get_def scenario_gzip_def)

lemma find_task7: "find (has_task_id 7) [task7] = Some task7"
  by (simp add: has_task_id_def task7_def)


text \<open>
  Claim C2. When the GET request is answered with status 200 and a body that decompresses
  to the text \<open>"ACCESSION A1\nIGNORE\nACCESSION A2\n"\<close>, the pipeline makes one call of
  \<open>update_file_status\<close>, with \<open>Completed\<close> and the list \<open>["A1", "A2"]\<close>; if the task
  exists and the transaction commits, its row then holds the status \<open>Completed\<close>, the
  list \<open>["A1", "A2"]\<close> and the count 2, all written in that one update.
\<close>

theorem scenario_A_completed:
  assumes "http_get e u = Inr (200, Inr body)"
      and "gzip_read e body = Inr scenario_text"
      and "\<not> sql_fails e"
      and "find (has_task_id t) files = Some r"
  shows "download_and_process_file e u t files
           = update_file_status False files t Completed (Some [ustr ''A1'', ustr ''A2''])
       \<and> download_and_process_file e u t files
           = replace_first (has_task_id t)
               (r\<lparr>status := Completed, accession_list := Some [ustr ''A1'', ustr ''A2''],
                  result_count := Some 2\<rparr>) files
       \<and> find (has_task_id t) (download_and_process_file e u t files)
           = Some (r\<lparr>status := Completed, accession_list := Some [ustr ''A1'', ustr ''A2''],
                     result_count := Some 2\<rparr>)"
proof -
  let ?r = "r\<lparr>status := Completed, accession_list := Some [ustr ''A1'', ustr ''A2''],
               result_count := Some 2\<rparr>"
  have run: "download_and_process_file e u t files
      = update_file_status False files t Completed (Some [ustr ''A1'', ustr ''A2''])"
    using scenario_A_run [OF assms(1,2)] assms(3) by (simp add: download_and_process_file_def)
  have upd: "update_file_status False files t Completed (Some [ustr ''A1'', ustr ''A2''])
      = replace_first (has_task_id t) ?r files"
    using update_file_status_found(2) [OF assms(4)] by simp
  have "has_task_id t ?r"
    using find_has_task_id [OF assms(4)] by (simp add: has_task_id_def)
  from find_replace_first [OF this assms(4)] run upd show ?thesis by simp
qed

theorem scenario_A_completed_witness:
  "download_and_process_file (scenario_env 200) scenario_url 7 [task7] = [task7_done]"
proof -
  have h1: "http_get (scenario_env 200) scenario_url = Inr (200, Inr scenario_body)"
    by (simp add: scenario_env_simps)
  have h3: "\<not> sql_fails (scenario_env 200)" by (simp add: scenario_env_simps)
  from scenario_A_completed [OF h1 scenario_env_simps(2) h3 find_task7]
  have "download_and_process_file (scenario_env 200) scenario_url 7 [task7]
      = replace_first (has_task_id 7)
               (task7\<lparr>status := Completed, accession_list := Some [ustr ''A1'', ustr ''A2''],
                  result_count := Some 2\<rparr>) [task7]"
    by (rule conjunct1 [OF conjunct2])
  then show ?thesis by (simp add: has_task_id_def task7_def task7_done_def)
qed

lemma on_exception_status:
  assumes "find (has_task_id t) files = Some r" and "\<not> sql_fails e"
  shows "task_status (on_exception e t files ex) t
           = Some (if ex = ClientError then Failed_to_download else Failed_unexpected)"
  using assms by (simp add: on_exception_def update_file_status_status)

lemma process_body_status:
  assumes "find (has_task_id t) files = Some r" and "\<not> sql_fails e"
  shows "task_status (process_body caught e t files content) t
           = Some (case gzip_read e content of
                     Inl ex \<Rightarrow> if caught ex then Failed_to_decompress
                               else if ex = ClientError then Failed_to_download
                               else Failed_unexpected
                   | Inr file_data \<Rightarrow>
                       (case extract_accession_numbers file_data of
                          Inl ex \<Rightarrow> Failed_unexpected
                        | Inr ids \<Rightarrow> Completed))"
proof (cases "gzip_read e content")
  case (Inl ex)
  with assms show ?thesis
    by (simp add: process_body_def on_exception_status update_file_status_status)
next
  case (Inr file_data)
  show ?thesis
  proof (cases "extract_accession_numbers file_data")
    case (Inl ex)
    then have "ex = IndexError" by (rule extract_raises)
    with Inl Inr assms show ?thesis
      by (simp add: process_body_def on_exception_status)
  next
    case (Inr ids)
    with \<open>gzip_read e content = Inr file_data\<close> assms show ?thesis
      by (simp add: process_body_def update_file_status_status)
  qed
qed

lemma pipeline_one_update:
  "\<exists>st new_list. download_and_process_file_with caught e u t files
      = update_file_status (sql_fails e) files t st new_list"
  by (auto simp: download_and_process_file_with_def process_body_def on_exception_def
           split: sum.splits prod.splits)

text \<open>
  Claim C7, as the code has it. Let the task exist and the transaction commit. Every
  response whose status code is not 200, a success status other than 200 included, leaves
  the status \<open>Failed to download\<close>, and so does an \<open>aiohttp.ClientError\<close> raised by the
  request or by the reading of the body. A response with the status code 200 whose body
  has been read is handed to the decompression, and the run then does not leave
  \<open>Failed to download\<close>, provided that the decompression raises no
  \<open>aiohttp.ClientError\<close>. So for a response that has been received and read, the status
  \<open>Failed to download\<close> is left exactly when the status code is not 200. Nothing is said
  here about a request that fails with an exception of another class.
\<close>

theorem failed_download_by_status:
  assumes found: "find (has_task_id t) files = Some r"
      and commit: "\<not> sql_fails e"
  shows "(\<forall>code body. http_get e u = Inr (code, body) \<and> code \<noteq> 200 \<longrightarrow>
            task_status (download_and_process_file_with caught e u t files) t
              = Some Failed_to_download)
       \<and> (http_get e u = Inl ClientError \<or> http_get e u = Inr (200, Inl ClientError) \<longrightarrow>
            task_status (download_and_process_file_with caught e u t files) t
              = Some Failed_to_download)
       \<and> (\<forall>content. http_get e u = Inr (200, Inr content) \<longrightarrow>
            download_and_process_file_with caught e u t files
              = process_body caught e t files content
            \<and> (gzip_read e content \<noteq> Inl ClientError \<longrightarrow>
                 task_status (download_and_process_file_with caught e u t files) t
                   \<noteq> Some Failed_to_download))"
proof (intro conjI allI impI)
  fix code body
  assume "http_get e u = Inr (code, body) \<and> code \<noteq> 200"
  with found commit
  show "task_status (download_and_process_file_with caught e u t files) t
          = Some Failed_to_download"
    by (simp add: download_and_process_file_with_def update_file_status_status)
next
  assume "http_get e u = Inl ClientError \<or> http_get e u = Inr (200, Inl ClientError)"
  then show "task_status (download_and_process_file_with caught e u t files) t
          = Some Failed_to_download"
  proof
    assume "http_get e u = Inl ClientError"
    with found commit show ?thesis
      by (simp add: download_and_process_file_with_def on_exception_status)
  next
    assume "http_get e u = Inr (200, Inl ClientError)"
    with found commit show ?thesis
      by (simp add: download_and_process_file_with_def on_exception_status)
  qed
next
  fix content
  assume "http_get e u = Inr (200, Inr content)"
  then show "download_and_process_file_with caught e u t files
              = process_body caught e t files content"
    by (simp add: download_and_process_file_with_def)
next
  fix content
  assume resp: "http_get e u = Inr (200, Inr content)"
     and gz: "gzip_read e content \<noteq> Inl ClientError"
  have "task_status (process_body caught e t files content) t \<noteq> Some Failed_to_download"
    using gz
    by (auto simp: process_body_status [OF found commit] status_distinct
          status_distinct [symmetric] split: sum.splits)
  with resp show "task_status (download_and_process_file_with caught e u t files) t
                   \<noteq> Some Failed_to_download"
    by (simp add: download_and_process_file_with_def)
qed

theorem failed_download_by_status_witness:
  "task_status (download_and_process_file_with caught_file_processing (scenario_env 404)
        scenario_url 7 [task7]) 7 = Some Failed_to_download
   \<and> download_and_process_file_with caught_file_processing (scenario_env 200)
        scenario_url 7 [task7]
       = process_body caught_file_processing (scenario_env 200) 7 [task7] scenario_body
   \<and> task_status (download_and_process_file_with caught_file_processing (scenario_env 200)
        scenario_url 7 [task7]) 7 \<noteq> Some Failed_to_download"
proof -
  have c: "\<not> sql_fails (scenario_env code)" for code by (simp add: scenario_env_simps)
  have r404: "http_get (scenario_env 404) scenario_url = Inr (404, Inr scenario_body)
                \<and> (404::int) \<noteq> 200"
    by (simp add: scenario_env_simps)
  have r200: "http_get (scenario_env 200) scenario_url = Inr (200, Inr scenario_body)"
    by (simp add: scenario_env_simps)
  have gz: "gzip_read (scenario_env 200) scenario_body \<noteq> Inl ClientError"
    by (simp add: scenario_env_simps)
  from failed_download_by_status [where e = "scenario_env 404" and u = scenario_url
        and caught = caught_file_processing, OF find_task7 c] r404
  have a: "task_status (download_and_process_file_with caught_file_processing (scenario_env 404)
        scenario_url 7 [task7]) 7 = Some Failed_to_download"
    by blast
  from failed_download_by_status [where e = "scenario_env 200" and u = scenario_url
        and caught = caught_file_processing, OF find_task7 c] r200 gz
  have b: "download_and_process_file_with caught_file_processing (scenario_env 200)
        scenario_url 7 [task7]
       = process_body caught_file_processing (scenario_env 200) 7 [task7] scenario_body
     \<and> task_status (download_and_process_file_with caught_file_processing (scenario_env 200)
        scenario_url 7 [task7]) 7 \<noteq> Some Failed_to_download"
    by blast
  from a b show ?thesis by blast
qed

text \<open>
  Claim C7 as stated fails: 204 is a success status of HTTP, yet the pipeline does not go
  on to the decompression of the body (which would give \<open>Completed\<close>) and leaves the
  status \<open>Failed to download\<close>.
\<close>

theorem success_status_204_counterexample:
  "task_status (download_and_process_file (scenario_env 204) scenario_url 7 [task7]) 7
     = Some Failed_to_download"
  by (simp add: download_and_process_file_def download_and_process_file_with_def
        scenario_env_simps update_file_status_def task_status_def has_task_id_def task7_def)




text \<open>
  Claim C5. The claim is that every body that is not a valid gzip stream, a truncated
  stream included, ends in the status \<open>Failed to decompress\<close>. For a stream that ends
  early \<open>gzip\<close> raises \<open>EOFError\<close>, which neither inner \<open>except\<close> clause catches
  (\<open>(OSError, gzip.BadGzipFile)\<close> in one module, \<open>gzip.BadGzipFile\<close> in the other): the
  outer handler for \<open>Exception\<close> writes \<open>Failed due to an unexpected error\<close>.
\<close>

theorem truncated_gzip_unexpected:
  "task_status (download_and_process_file truncated_env scenario_url 7 [task7]) 7
     = Some Failed_unexpected
   \<and> task_status (routers_download_and_process_file truncated_env scenario_url 7 [task7]) 7
     = Some Failed_unexpected
   \<and> Failed_unexpected \<noteq> Failed_to_decompress"
proof -
  have env: "http_get truncated_env scenario_url = Inr (200, Inr truncated_body)"
    "gzip_read truncated_env truncated_body = Inl EOFError"
    "sql_fails truncated_env = False"
    by (simp_all add: truncated_env_def truncated_get_def truncated_gzip_def)
  have "download_and_process_file_with caught truncated_env scenario_url 7 [task7]
      = update_file_status False [task7] 7 Failed_unexpected None"
    if "\<not> caught EOFError" for caught
    using that by (simp add: download_and_process_file_with_def process_body_def
        on_exception_def env)
  then show ?thesis
    using update_file_status_status [OF find_task7, of Failed_unexpected None]
    by (simp add: download_and_process_file_def routers_download_and_process_file_def
        caught_file_processing_def caught_routers_def status_distinct [symmetric])
qed

section \<open>The endpoints: properties\<close>

lemma check_status_response:
  assumes "find (has_task_id t) files = Some r"
  shows "snd (check_status False files t)
           = Inr (FileStatusResponse (status r) (result_count r)
                    (take 20 (case accession_list r of None \<Rightarrow> [] | Some xs \<Rightarrow> xs) @ [ustr ''...'']))"
  using assms
  by (auto simp: check_status_def load_list_def alloc_def append_obj_def nth_append
           split: option.splits)

lemma flush_list_None: "accession_list r = None \<Longrightarrow> flush_list h None r = r"
  by (simp add: flush_list_def)

lemma flush_list_Some: "accession_list r = Some xs \<Longrightarrow> h ! a = xs \<Longrightarrow> flush_list h (Some a) r = r"
  by (simp add: flush_list_def)

lemma check_status_flush:
  assumes "find (has_task_id t) files = Some r"
  shows "fst (check_status False files t) = replace_first (has_task_id t) r files"
proof (cases "accession_list r")
  case None
  with assms show ?thesis
    by (simp add: check_status_def load_list_def alloc_def flush_list_None)
next
  case (Some xs)
  note flush = flush_list_Some [OF Some]
  from assms Some show ?thesis
    by (simp add: check_status_def load_list_def alloc_def Let_def flush append_obj_def)
qed

lemma check_status_table: "fst (check_status sql_error files task_id) = files"
proof (cases "sql_error")
  case True
  then show ?thesis by (simp add: check_status_def)
next
  case False
  show ?thesis
  proof (cases "find (has_task_id task_id) files")
    case None
    with False show ?thesis by (simp add: check_status_def)
  next
    case (Some r)
    from check_status_flush [OF Some] replace_first_same [OF Some] False
    show ?thesis by simp
  qed
qed

text \<open>
  Claim C10. A status query leaves the table as it was: the marker \<open>...\<close> is appended
  to a new list object (the slice, or the literal \<open>[]\<close>), never to the list of the loaded
  row, so the commit at the end of the block writes back what was read; neither the status
  nor the count is assigned.
\<close>

theorem check_status_frame: "fst (check_status sql_error files task_id) = files"
  by (rule check_status_table)

theorem check_status_frame_witness:
  "fst (check_status False [task7_done] 7) = [task7_done]"
  using check_status_frame [of False "[task7_done]" 7] by simp

text \<open>
  Claim C6. The claim is that a list of 20 or fewer entries is answered as it is, with no
  marker. \<open>check_status\<close> appends \<open>...\<close> in every case: for the task with the two
  entries \<open>A1\<close> and \<open>A2\<close> the answer is \<open>["A1", "A2", "..."]\<close>.
\<close>

theorem check_status_short_list:
  "check_status False [task7_done] 7
     = ([task7_done],
        Inr (FileStatusResponse Completed (Some 2) [ustr ''A1'', ustr ''A2'', ustr ''...'']))"
  by (simp add: check_status_def load_list_def alloc_def append_obj_def flush_list_def
        has_task_id_def task7_done_def)

lemma randint_range: "a \<le> b \<Longrightarrow> a \<le> randint a b r \<and> randint a b r \<le> b"
proof -
  assume "a \<le> b"
  then have pos: "0 < b - a + 1" by simp
  have "0 \<le> int r mod (b - a + 1)" using pos by simp
  moreover have "int r mod (b - a + 1) < b - a + 1" using pos by (rule pos_mod_bound)
  ultimately show ?thesis unfolding randint_def by linarith
qed

lemma start7_simps:
  "http_head start7 u = Inr 200" "rnd start7 = 6" "new_uuid start7 = 2" "commit_fails start7 = False"
  by (simp_all add: start7_def head_ok_def)

lemma randint_6: "randint 1 1000000 6 = 7"
  by (simp add: randint_def)

text \<open>
  Claim C9. The claim is that creating a task whose identifier is already in the table
  fails and inserts nothing, so that identifiers are unique. \<open>start_download\<close> draws the
  identifier at random and never looks it up: with a task 7 in the table and a draw of 7
  the call succeeds, answers with the identifier 7 and inserts a second row with that
  identifier. A later run of the pipeline for the identifier 7 writes the first of the two
  rows only.
\<close>

theorem start_download_duplicate_id:
  "find (has_task_id 7) [task7] = Some task7
   \<and> start_download start7 scenario_url [task7]
       = ([task7, task7_again], Inr (FileDownloadResponse 7 Downloading), [(scenario_url, 7)])
   \<and> map download_task_id [task7, task7_again] = [7, 7]
   \<and> download_and_process_file (scenario_env 200) scenario_url 7 [task7, task7_again]
       = [task7_done, task7_again]"
proof -
  have s: "start_download start7 scenario_url [task7]
       = ([task7, task7_again], Inr (FileDownloadResponse 7 Downloading), [(scenario_url, 7)])"
    by (simp add: start_download_def Let_def start7_simps randint_6 task7_def task7_again_def)
  have ids: "map download_task_id [task7, task7_again] = [7, 7]"
    by (simp add: task7_def task7_again_def)
  have h1: "http_get (scenario_env 200) scenario_url = Inr (200, Inr scenario_body)"
    by (simp add: scenario_env_simps)
  have run: "download_and_process_file (scenario_env 200) scenario_url 7 [task7, task7_again]
       = [task7_done, task7_again]"
    using scenario_A_run [OF h1 scenario_env_simps(2), of caught_file_processing 7
        "[task7, task7_again]"]
    by (simp add: download_and_process_file_def scenario_env_simps update_file_status_def
          has_task_id_def task7_def task7_done_def)
  from find_task7 s ids run show ?thesis by simp
qed

section \<open>The count and the list\<close>

lemma set_together_consistent: "consistent r \<Longrightarrow> set_together new_list r r' \<Longrightarrow> consistent r'"
  by (auto simp: consistent_def set_together_def split: option.splits)

lemma set_together_refl: "set_together new_list r r"
  by (simp add: set_together_def)

lemma update_file_status_set_together:
  "list_all2 (set_together new_list) files (update_file_status sql_error files t st new_list)"
proof (cases "sql_error \<or> find (has_task_id t) files = None")
  case True
  then show ?thesis
    by (auto simp: update_file_status_def list_all2_same set_together_refl)
next
  case False
  then obtain r where r: "find (has_task_id t) files = Some r" and ok: "\<not> sql_error" by auto
  show ?thesis
  proof (cases new_list)
    case None
    have "list_all2 (set_together None) files
            (replace_first (has_task_id t) (r\<lparr>status := st\<rparr>) files)"
      by (rule replace_first_rel) (simp_all add: set_together_def r)
    with r ok None show ?thesis by (simp add: update_file_status_def)
  next
    case (Some xs)
    have "list_all2 (set_together (Some xs)) files
            (replace_first (has_task_id t)
               (r\<lparr>status := st, accession_list := Some xs,
                  result_count := Some (int (length xs))\<rparr>) files)"
      by (rule replace_first_rel) (simp_all add: set_together_def r)
    with r ok Some show ?thesis by (simp add: update_file_status_def)
  qed
qed

lemma list_all2_consistent:
  assumes "list_all2 (set_together new_list) xs ys" and "\<forall>r \<in> set xs. consistent r"
  shows "\<forall>r \<in> set ys. consistent r"
  using assms
  by (induction rule: list_all2_induct) (auto intro: set_together_consistent)

lemma update_file_status_consistent:
  "\<forall>r \<in> set files. consistent r \<Longrightarrow>
   \<forall>r \<in> set (update_file_status sql_error files t st new_list). consistent r"
  using update_file_status_set_together by (rule list_all2_consistent)

lemma start_download_consistent:
  "\<forall>r \<in> set files. consistent r \<Longrightarrow> \<forall>r \<in> set (fst (start_download se u files)). consistent r"
  by (auto simp: start_download_def Let_def consistent_def split: sum.splits)

lemma reachable_consistent: "reachable files \<Longrightarrow> \<forall>r \<in> set files. consistent r"
proof (induction rule: reachable.induct)
  case reachable_empty
  show ?case by simp
next
  case (reachable_start files se request_url)
  then show ?case using start_download_consistent by blast
next
  case (reachable_pipeline files caught e the_url task_id)
  obtain st new_list where
    "download_and_process_file_with caught e the_url task_id files
       = update_file_status (sql_fails e) files task_id st new_list"
    using pipeline_one_update by blast
  with reachable_pipeline.IH show ?case
    using update_file_status_consistent by simp
next
  case (reachable_check files sql_error task_id)
  then show ?case by (simp only: check_status_table)
qed

lemma start1_table: "fst (start_download start1 scenario_url []) = [task7]"
  by (simp add: start_download_def Let_def start1_def head_ok_def randint_6 task7_def)

lemma scenario_A_table:
  "download_and_process_file_with caught_file_processing (scenario_env 200) scenario_url 7 [task7]
     = [task7_done]"
proof -
  have h1: "http_get (scenario_env 200) scenario_url = Inr (200, Inr scenario_body)"
    by (simp add: scenario_env_simps)
  from scenario_A_run [OF h1 scenario_env_simps(2)] show ?thesis
    by (simp add: scenario_env_simps update_file_status_def has_task_id_def task7_def
          task7_done_def)
qed

lemma reachable_task7_done: "reachable [task7_done]"
proof -
  have "reachable (fst (start_download start1 scenario_url []))"
    by (rule reachable_start) (rule reachable_empty)
  then have "reachable [task7]" by (simp only: start1_table)
  then have "reachable (download_and_process_file_with caught_file_processing
      (scenario_env 200) scenario_url 7 [task7])"
    by (rule reachable_pipeline) simp
  then show ?thesis by (simp only: scenario_A_table)
qed

text \<open>
  Claim C8. In every table that the program can reach, a task with the status
  \<open>Completed\<close> has a \<open>result_count\<close> equal to the length of its \<open>accession_list\<close>; and
  every call of \<open>update_file_status\<close> leaves, in each row, both columns as they were or
  sets both, the count to the length of the list.
\<close>

theorem completed_count_is_length:
  "(reachable files \<longrightarrow> (\<forall>r \<in> set files. status r = Completed \<longrightarrow> consistent r))
   \<and> list_all2 (set_together new_list) files
        (update_file_status sql_error files t st new_list)"
  using reachable_consistent update_file_status_set_together by blast

theorem completed_count_is_length_witness:
  "reachable [task7_done] \<and> status task7_done = Completed \<and> consistent task7_done
   \<and> accession_list task7_done = Some [ustr ''A1'', ustr ''A2'']
   \<and> result_count task7_done = Some 2"
proof -
  have s: "status task7_done = Completed" by (simp add: task7_done_def)
  from completed_count_is_length [of "[task7_done]"] reachable_task7_done s
  have "consistent task7_done" by simp
  with reachable_task7_done s show ?thesis by (simp add: task7_done_def)
qed

end
